theory Spec2Isabelle
  imports Main
begin

section \<open>The matching notebook \<^verbatim>\<open>prompt_exp_fixed.ipynb\<close>\<close>

text \<open>
  The notebook asks a hosted model which of a window of candidate queries matches a
  reference code snippet, reads the answer with a regular expression, and looks the
  chosen query up in the full dataset. The functions of its cells are embedded below,
  one HOL function per Python function or expression.

  Modelling conventions.
  \<^item> A Python \<^verbatim>\<open>str\<close> is a \<^typ>\<open>string\<close>; one \<^typ>\<open>char\<close> stands for one code
    point in the range U+0000..U+00FF. In that range the characters of Unicode
    category Nd, which \<^verbatim>\<open>\d\<close> matches and \<^verbatim>\<open>int\<close> reads, are exactly
    \<^verbatim>\<open>0\<close>..\<^verbatim>\<open>9\<close>, and the characters that \<^verbatim>\<open>str.strip\<close> removes are the twelve
    listed in \<open>is_space\<close>.
  \<^item> A Python \<^verbatim>\<open>int\<close> is an \<^typ>\<open>int\<close>. \<^verbatim>\<open>int(s)\<close> on a run of digits is the
    positional value of the run, whatever its length: the resource limits of an
    interpreter (memory, the configurable cap on the number of digits of one
    conversion) are not part of the model.
  \<^item> An exception is a value \<open>Inl e\<close> of a sum type, a normal return is \<open>Inr v\<close>.
  \<^item> A row of the dataset is a record with the two columns the notebook reads; the
    dataset and the candidate window are lists of rows.
  \<^item> \<^verbatim>\<open>print\<close> output is presentational and is not modelled.
\<close>

subsection \<open>Data\<close>

record sample =
  query :: string
  answer :: string

datatype py_exception =
    IndexError
  | ValueError
  | RuntimeError string

subsection \<open>Characters and numbers\<close>

definition is_digit :: "char \<Rightarrow> bool" where
  "is_digit c = (48 \<le> (of_char c :: nat) \<and> (of_char c :: nat) \<le> 57)"

definition digit_value :: "char \<Rightarrow> int" where
  "digit_value c = int (of_char c) - 48"

text \<open>\<^verbatim>\<open>str.isspace\<close> on one character, for the code points below 256.\<close>

definition is_space :: "char \<Rightarrow> bool" where
  "is_space c = ((of_char c :: nat) \<in> {9, 10, 11, 12, 13, 28, 29, 30, 31, 32, 133, 160})"

text \<open>\<^verbatim>\<open>int(digits)\<close> for a string made of decimal digits only.\<close>

definition py_int :: "string \<Rightarrow> int" where
  "py_int digits = foldl (\<lambda>acc c. 10 * acc + digit_value c) 0 digits"

text \<open>\<^verbatim>\<open>str(n)\<close> for a non-negative integer, as the f-string renders \<^verbatim>\<open>{i+1}\<close>.\<close>

function str_nat :: "nat \<Rightarrow> string" where
  "str_nat n =
     (if n < 10 then [char_of (48 + n)]
      else str_nat (n div 10) @ [char_of (48 + n mod 10)])"
  by pat_completeness auto
termination
  by (relation "measure id") auto

declare str_nat.simps [simp del]

text \<open>\<^verbatim>\<open>s.strip()\<close>: leading and trailing whitespace removed.\<close>

definition strip :: "string \<Rightarrow> string" where
  "strip s = rev (dropWhile is_space (rev (dropWhile is_space s)))"

subsection \<open>Cell 3: the API key\<close>

text \<open>
  \<^verbatim>\<open>
  def load_api_key(path: str) -> str:
      try:
          with open(path, "r") as f:
              return f.read().strip()
      except FileNotFoundError:
          raise RuntimeError(f"API key file '{path}' not found.")
      except Exception as e:
          raise RuntimeError(f"Error loading API key: {e}")
  \<close>
  The file system is a parameter \<open>open_read\<close>: what opening the path and reading the
  file to its end gives, either the text or the exception raised on the way. An
  exception is \<^verbatim>\<open>FileNotFoundError\<close>, or any other exception deriving from
  \<^verbatim>\<open>Exception\<close>, which carries its rendering \<^verbatim>\<open>str(e)\<close>.
\<close>

datatype read_failure = FileNotFoundError | OtherException string

definition load_api_key ::
  "(string \<Rightarrow> read_failure + string) \<Rightarrow> string \<Rightarrow> py_exception + string" where
  "load_api_key open_read path =
     (case open_read path of
        Inr content \<Rightarrow> Inr (strip content)
      | Inl FileNotFoundError \<Rightarrow>
          Inl (RuntimeError (''API key file '' @ [CHR 0x27] @ path @ [CHR 0x27] @ '' not found.''))
      | Inl (OtherException e) \<Rightarrow>
          Inl (RuntimeError (''Error loading API key: '' @ e)))"

subsection \<open>Cell 6: the prompt\<close>

text \<open>
  \<^verbatim>\<open>
  def build_comparison_prompt(code: str, subset_examples) -> str:
      content = f"The following code is provided:\n\n{code}\n\n"
      content += (
          "Please identify which query in the list below is the most similar to the code in terms of purpose. The options are:\n\n"
      )
      for i, example in enumerate(subset_examples):
          content += f"Query {i+1}: {example['query']}\n"
      return content
  \<close>
  The loop is \<open>prompt_loop\<close>: the counter of \<^verbatim>\<open>enumerate\<close>, the rows still to
  visit and the text accumulated so far.
\<close>

fun prompt_loop :: "nat \<Rightarrow> sample list \<Rightarrow> string \<Rightarrow> string" where
  "prompt_loop i [] content = content"
| "prompt_loop i (example # rest) content =
     prompt_loop (i + 1) rest
       (content @ ''Query '' @ str_nat (i + 1) @ '': '' @ query example @ ''\<newline>'')"

definition build_comparison_prompt :: "string \<Rightarrow> sample list \<Rightarrow> string" where
  "build_comparison_prompt code subset_examples =
     prompt_loop 0 subset_examples
       ((''The following code is provided:\<newline>\<newline>'' @ code @ ''\<newline>\<newline>'')
        @ ''Please identify which query in the list below is the most similar to the code in terms of purpose. The options are:\<newline>\<newline>'')"

subsection \<open>Cell 8: the selection\<close>

text \<open>
  \<^verbatim>\<open>
  def extract_query_number(response_text: str) -> Optional[int]:
      match = re.search(r'Query (\d+)', response_text)
      if match:
          return int(match.group(1))
      return None
  \<close>
  \<open>match_here\<close> is one attempt of the pattern at the start of a string: the six
  literal characters, the last one a single space, then the longest run of digits, which
  must not be empty; it gives group 1. \<open>re_search\<close> tries the start positions from left
  to right and stops at the first attempt that succeeds.
\<close>

definition match_here :: "string \<Rightarrow> string option" where
  "match_here s =
     (if take 6 s = ''Query '' then
        (let run = takeWhile is_digit (drop 6 s)
         in if run = [] then None else Some run)
      else None)"

fun re_search :: "string \<Rightarrow> string option" where
  "re_search [] = None"
| "re_search (c # cs) =
     (case match_here (c # cs) of Some group1 \<Rightarrow> Some group1 | None \<Rightarrow> re_search cs)"

definition extract_query_number :: "string \<Rightarrow> int option" where
  "extract_query_number response_text =
     (case re_search response_text of
        Some group1 \<Rightarrow> Some (py_int group1)
      | None \<Rightarrow> None)"

subsection \<open>Cell 9: the position in the full dataset\<close>

text \<open>
  \<^verbatim>\<open>subset[key]\<close> on the selected rows: a key from \<open>-size\<close> up to \<open>size - 1\<close> is
  accepted, a negative one counting from the end; anything else raises
  \<^verbatim>\<open>IndexError\<close>.
\<close>

definition getitem :: "'a list \<Rightarrow> int \<Rightarrow> py_exception + 'a" where
  "getitem rows key =
     (let size = int (length rows) in
      if (key < 0 \<and> key + size < 0) \<or> size \<le> key then Inl IndexError
      else if key < 0 then Inr (rows ! nat (key + size))
      else Inr (rows ! nat key))"

text \<open>
  \<^verbatim>\<open>paragraphs.index(reference_paragraph)\<close>: the list is scanned from the left, the
  position of the first element equal to the argument is returned, and \<^verbatim>\<open>ValueError\<close>
  is raised when the scan reaches the end.
\<close>

fun list_index_from :: "'a list \<Rightarrow> 'a \<Rightarrow> nat \<Rightarrow> py_exception + nat" where
  "list_index_from [] x k = Inl ValueError"
| "list_index_from (y # ys) x k = (if y = x then Inr k else list_index_from ys x (Suc k))"

definition list_index :: "'a list \<Rightarrow> 'a \<Rightarrow> py_exception + nat" where
  "list_index xs x = list_index_from xs x 0"

text \<open>
  \<^verbatim>\<open>
  def find_paragraph_index(paragraphs, reference_paragraph):
      try:
          return paragraphs.index(reference_paragraph)
      except ValueError:
          print("Reference paragraph not found in the list.")
          return None
  \<close>
  Only \<^verbatim>\<open>ValueError\<close> is caught; any other exception would propagate.
\<close>

definition find_paragraph_index :: "string list \<Rightarrow> string \<Rightarrow> py_exception + nat option" where
  "find_paragraph_index paragraphs reference_paragraph =
     (case list_index paragraphs reference_paragraph of
        Inr i \<Rightarrow> Inr (Some i)
      | Inl e \<Rightarrow> (if e = ValueError then Inr None else Inl e))"

text \<open>
  The statements of the cell, with the dataset, the window and the extracted number as
  arguments:
  \<^verbatim>\<open>
  if query_number is not None:
      matched_query_text = subset[query_number - 1]['query']
      all_queries = data['query']
      index_position = find_paragraph_index(all_queries, matched_query_text)
  \<close>
  The result is the matched text with its position, \<open>None\<close> when no number was
  extracted, or the exception that stopped the cell. The cell has no check of the number
  against the size of the window: the only failure is the one \<open>getitem\<close> raises.
\<close>

definition resolve_match ::
  "sample list \<Rightarrow> sample list \<Rightarrow> int option
   \<Rightarrow> py_exception + (string \<times> nat option) option" where
  "resolve_match data subset_rows query_number =
     (case query_number of
        None \<Rightarrow> Inr None
      | Some n \<Rightarrow>
          (case getitem subset_rows (n - 1) of
             Inl e \<Rightarrow> Inl e
           | Inr row \<Rightarrow>
               (let matched_query_text = query row;
                    all_queries = map query data
                in case find_paragraph_index all_queries matched_query_text of
                     Inl e \<Rightarrow> Inl e
                   | Inr index_position \<Rightarrow> Inr (Some (matched_query_text, index_position)))))"

subsection \<open>Vocabulary of the specification\<close>

text \<open>
  An occurrence, at position \<open>i\<close> of a text, of the token \<^verbatim>\<open>Query\<close>, one space and
  at least one decimal digit; and the digit run that starts after the space.
\<close>

definition token_at :: "string \<Rightarrow> nat \<Rightarrow> bool" where
  "token_at t i =
     (take 6 (drop i t) = ''Query '' \<and> i + 6 < length t \<and> is_digit (t ! (i + 6)))"

definition digit_run :: "string \<Rightarrow> nat \<Rightarrow> string" where
  "digit_run t i = takeWhile is_digit (drop (i + 6) t)"

section \<open>Facts about the embedded functions\<close>

subsection \<open>The scan of \<open>list_index\<close>\<close>

lemma list_index_from_absent:
  "x \<notin> set xs \<Longrightarrow> list_index_from xs x k = Inl ValueError"
  by (induction xs arbitrary: k) auto

lemma list_index_from_first:
  "i < length xs \<Longrightarrow> xs ! i = x \<Longrightarrow> (\<And>j. j < i \<Longrightarrow> xs ! j \<noteq> x)
   \<Longrightarrow> list_index_from xs x k = Inr (k + i)"
proof (induction xs arbitrary: i k)
  case Nil
  then show ?case by simp
next
  case (Cons y ys)
  show ?case
  proof (cases i)
    case 0
    with Cons.prems show ?thesis by simp
  next
    case (Suc m)
    from Cons.prems(3) [of 0] Suc have ne: "y \<noteq> x" by auto
    have m1: "m < length ys" using Cons.prems(1) Suc by simp
    have m2: "ys ! m = x" using Cons.prems(2) Suc by simp
    have m3: "\<And>j. j < m \<Longrightarrow> ys ! j \<noteq> x"
    proof -
      fix j assume "j < m"
      then have "Suc j < i" using Suc by simp
      from Cons.prems(3) [OF this] show "ys ! j \<noteq> x" by simp
    qed
    from Cons.IH [OF m1 m2 m3, of "Suc k"] ne Suc show ?thesis by simp
  qed
qed

lemma list_index_from_raises_only_ValueError:
  "list_index_from xs x k = Inl e \<Longrightarrow> e = ValueError"
  by (induction xs arbitrary: k) (auto split: if_splits)

lemma first_occurrence_exists:
  "x \<in> set xs \<Longrightarrow> \<exists>i. i < length xs \<and> xs ! i = x \<and> (\<forall>j<i. xs ! j \<noteq> x)"
proof -
  assume "x \<in> set xs"
  then obtain n where n: "n < length xs" "xs ! n = x"
    by (auto simp: in_set_conv_nth)
  define P where "P = (\<lambda>i. i < length xs \<and> xs ! i = x)"
  have Pn: "P n" using n by (simp add: P_def)
  have "P (LEAST i. P i)" using Pn by (rule LeastI)
  moreover have "\<forall>j < (LEAST i. P i). \<not> P j" using not_less_Least by blast
  ultimately show ?thesis
    unfolding P_def using less_trans by blast
qed

lemma find_paragraph_index_returns:
  "\<exists>r. find_paragraph_index ps x = Inr r"
proof (cases "list_index ps x")
  case (Inl e)
  then have "e = ValueError"
    unfolding list_index_def by (rule list_index_from_raises_only_ValueError)
  with Inl show ?thesis by (simp add: find_paragraph_index_def)
next
  case (Inr i)
  then show ?thesis by (simp add: find_paragraph_index_def)
qed

lemma find_paragraph_index_at:
  assumes "i < length ps" "ps ! i = x" "\<And>j. j < i \<Longrightarrow> ps ! j \<noteq> x"
  shows "find_paragraph_index ps x = Inr (Some i)"
proof -
  have "list_index_from ps x 0 = Inr (0 + i)"
    using assms by (intro list_index_from_first) auto
  then show ?thesis by (simp add: find_paragraph_index_def list_index_def)
qed

subsection \<open>Indexing the window\<close>

lemma getitem_forward:
  "0 \<le> key \<Longrightarrow> key < int (length rows) \<Longrightarrow> getitem rows key = Inr (rows ! nat key)"
  by (simp add: getitem_def)

lemma getitem_backward:
  "key < 0 \<Longrightarrow> 0 \<le> key + int (length rows)
   \<Longrightarrow> getitem rows key = Inr (rows ! nat (key + int (length rows)))"
  by (simp add: getitem_def)

lemma getitem_raises:
  "key + int (length rows) < 0 \<or> int (length rows) \<le> key
   \<Longrightarrow> getitem rows key = Inl IndexError"
  by (auto simp add: getitem_def)

lemma resolve_match_row:
  assumes "getitem subset_rows (n - 1) = Inr row"
  shows "\<exists>pos. resolve_match data subset_rows (Some n) = Inr (Some (query row, pos))"
proof -
  obtain r where "find_paragraph_index (map query data) (query row) = Inr r"
    using find_paragraph_index_returns by blast
  with assms show ?thesis by (simp add: resolve_match_def)
qed

lemma resolve_match_raises:
  assumes "getitem subset_rows (n - 1) = Inl e"
  shows "resolve_match data subset_rows (Some n) = Inl e"
  using assms by (simp add: resolve_match_def)

text \<open>
  Resolving a selection inside a window that is a sub-range of the dataset: the lookup
  lands on the selected row as soon as no row before it, outside or inside the window,
  holds the same text.
\<close>

lemma resolve_match_in_window:
  fixes j :: int
  assumes bounds: "s < e" "e \<le> length data"
    and slice: "subset_rows = take (e - s) (drop s data)"
    and sel: "1 \<le> j" "j \<le> int (e - s)"
    and chosen: "x = query (subset_rows ! nat (j - 1))"
    and outside: "\<forall>i < length data. query (data ! i) = x \<longrightarrow> s \<le> i \<and> i < e"
    and earlier: "\<forall>k < nat (j - 1). query (subset_rows ! k) \<noteq> x"
  shows "resolve_match data subset_rows (Some j) = Inr (Some (x, Some (s + nat (j - 1))))"
proof -
  define k where "k = nat (j - 1)"
  have k: "k < e - s" using sel by (simp add: k_def)
  have len: "length subset_rows = e - s" using bounds slice by simp
  have nth: "\<And>m. m < e - s \<Longrightarrow> subset_rows ! m = data ! (s + m)"
    using bounds slice by simp
  have "getitem subset_rows (j - 1) = Inr (subset_rows ! nat (j - 1))"
    using sel len by (intro getitem_forward) auto
  then have row: "getitem subset_rows (j - 1) = Inr (data ! (s + k))"
    using nth [OF k] by (simp add: k_def)
  have x: "x = query (data ! (s + k))"
    using chosen nth [OF k] by (simp add: k_def)
  have pos: "find_paragraph_index (map query data) x = Inr (Some (s + k))"
  proof (rule find_paragraph_index_at)
    show "s + k < length (map query data)" using k bounds by simp
    show "map query data ! (s + k) = x" using k bounds x by simp
    fix i assume i: "i < s + k"
    then have il: "i < length data" using k bounds by simp
    show "map query data ! i \<noteq> x"
    proof (cases "i < s")
      case True
      with outside il have "query (data ! i) \<noteq> x" by auto
      with il show ?thesis by simp
    next
      case False
      then have "i - s < k" using i by simp
      with earlier have "query (subset_rows ! (i - s)) \<noteq> x" by (simp add: k_def)
      moreover have "subset_rows ! (i - s) = data ! i"
        using nth [of "i - s"] False \<open>i - s < k\<close> k by simp
      ultimately show ?thesis using il by simp
    qed
  qed
  show ?thesis
    using row pos x by (simp add: resolve_match_def k_def)
qed

subsection \<open>Digits\<close>

lemma is_digit_not_space: "is_digit c \<Longrightarrow> \<not> is_space c"
  by (auto simp add: is_digit_def is_space_def)

lemma py_int_single: "py_int [c] = digit_value c"
  by (simp add: py_int_def)

lemma py_int_snoc: "py_int (ds @ [c]) = 10 * py_int ds + digit_value c"
  by (simp add: py_int_def)

lemma is_digit_char_of: "(d::nat) < 10 \<Longrightarrow> is_digit (char_of (48 + d))"
  by (simp add: is_digit_def)

lemma digit_value_char_of: "(d::nat) < 10 \<Longrightarrow> digit_value (char_of (48 + d)) = int d"
  by (simp add: digit_value_def)

lemma str_nat_digits: "\<forall>c\<in>set (str_nat n). is_digit c"
proof (induction n rule: str_nat.induct)
  case (1 n)
  show ?case
  proof (cases "n < 10")
    case True
    then show ?thesis by (subst str_nat.simps) (simp add: is_digit_char_of)
  next
    case False
    have "n mod 10 < 10" by simp
    then have "is_digit (char_of (48 + n mod 10))" by (rule is_digit_char_of)
    with False 1 show ?thesis by (subst str_nat.simps) simp
  qed
qed

lemma str_nat_nonempty: "str_nat n \<noteq> []"
  by (subst str_nat.simps) simp

text \<open>Reading a rendered number gives the number back.\<close>

lemma py_int_str_nat: "py_int (str_nat n) = int n"
proof (induction n rule: str_nat.induct)
  case (1 n)
  show ?case
  proof (cases "n < 10")
    case True
    then show ?thesis
      by (subst str_nat.simps) (simp add: py_int_single digit_value_char_of)
  next
    case False
    have m: "n mod 10 < 10" by simp
    have "py_int (str_nat n)
          = 10 * py_int (str_nat (n div 10)) + digit_value (char_of (48 + n mod 10))"
      using False by (subst str_nat.simps) (simp add: py_int_snoc)
    also have "\<dots> = 10 * int (n div 10) + int (n mod 10)"
      using 1 False digit_value_char_of [OF m] by simp
    also have "\<dots> = int n" by (simp add: zdiv_int zmod_int)
    finally show ?thesis .
  qed
qed

subsection \<open>The search of the pattern\<close>

lemma match_here_Nil: "match_here [] = None"
  by (simp add: match_here_def)

lemma match_here_drop:
  "match_here (drop i t) = (if token_at t i then Some (digit_run t i) else None)"
proof -
  have d: "drop 6 (drop i t) = drop (i + 6) t" by (simp add: add.commute)
  have e: "takeWhile is_digit (drop (i + 6) t) = []
           \<longleftrightarrow> \<not> (i + 6 < length t \<and> is_digit (t ! (i + 6)))"
    by (auto simp add: takeWhile_eq_Nil_iff hd_drop_conv_nth)
  show ?thesis
    unfolding match_here_def token_at_def digit_run_def d Let_def using e by auto
qed

lemma re_search_None_iff:
  "re_search t = None \<longleftrightarrow> (\<forall>i. match_here (drop i t) = None)"
proof (induction t)
  case Nil
  then show ?case by (simp add: match_here_Nil)
next
  case (Cons c cs)
  have "(\<forall>i. match_here (drop i (c # cs)) = None)
        \<longleftrightarrow> match_here (c # cs) = None \<and> (\<forall>i. match_here (drop i cs) = None)"
  proof
    assume a: "\<forall>i. match_here (drop i (c # cs)) = None"
    from a [rule_format, of 0] have "match_here (c # cs) = None" by simp
    moreover have "\<forall>i. match_here (drop i cs) = None"
    proof
      fix i from a [rule_format, of "Suc i"] show "match_here (drop i cs) = None" by simp
    qed
    ultimately show "match_here (c # cs) = None \<and> (\<forall>i. match_here (drop i cs) = None)" ..
  next
    assume b: "match_here (c # cs) = None \<and> (\<forall>i. match_here (drop i cs) = None)"
    show "\<forall>i. match_here (drop i (c # cs)) = None"
    proof
      fix i show "match_here (drop i (c # cs)) = None"
        using b by (cases i) auto
    qed
  qed
  with Cons.IH show ?case by (auto split: option.splits)
qed

lemma re_search_first:
  "match_here (drop i t) = Some g \<Longrightarrow> (\<And>j. j < i \<Longrightarrow> match_here (drop j t) = None)
   \<Longrightarrow> re_search t = Some g"
proof (induction t arbitrary: i)
  case Nil
  then show ?case by (simp add: match_here_Nil)
next
  case (Cons c cs)
  show ?case
  proof (cases i)
    case 0
    with Cons.prems(1) show ?thesis by simp
  next
    case (Suc m)
    have h0: "match_here (c # cs) = None"
      using Cons.prems(2) [of 0] Suc by simp
    have hm: "match_here (drop m cs) = Some g"
      using Cons.prems(1) Suc by simp
    have hj: "\<And>j. j < m \<Longrightarrow> match_here (drop j cs) = None"
    proof -
      fix j assume "j < m"
      then have "Suc j < i" using Suc by simp
      from Cons.prems(2) [OF this] show "match_here (drop j cs) = None" by simp
    qed
    from Cons.IH [OF hm hj] h0 show ?thesis by simp
  qed
qed

lemma re_search_no_Q:
  "\<forall>c\<in>set s. c \<noteq> CHR ''Q'' \<Longrightarrow> re_search s = None"
proof (induction s)
  case Nil
  then show ?case by simp
next
  case (Cons c cs)
  then have "match_here (c # cs) = None" by (simp add: match_here_def)
  with Cons show ?case by simp
qed

lemma extract_query_number_None_iff:
  "extract_query_number t = None \<longleftrightarrow> (\<forall>i. \<not> token_at t i)"
proof -
  have "extract_query_number t = None \<longleftrightarrow> re_search t = None"
    by (simp add: extract_query_number_def split: option.splits)
  also have "\<dots> \<longleftrightarrow> (\<forall>i. match_here (drop i t) = None)"
    by (rule re_search_None_iff)
  also have "\<dots> \<longleftrightarrow> (\<forall>i. \<not> token_at t i)"
    by (simp add: match_here_drop)
  finally show ?thesis .
qed

lemma extract_query_number_at_first:
  assumes "token_at t i" and "\<And>j. j < i \<Longrightarrow> \<not> token_at t j"
  shows "extract_query_number t = Some (py_int (digit_run t i))"
proof -
  have "match_here (drop i t) = Some (digit_run t i)"
    using assms(1) by (simp add: match_here_drop)
  moreover have "\<And>j. j < i \<Longrightarrow> match_here (drop j t) = None"
    using assms(2) by (simp add: match_here_drop)
  ultimately have "re_search t = Some (digit_run t i)"
    by (rule re_search_first)
  then show ?thesis by (simp add: extract_query_number_def)
qed

lemma first_token_exists:
  assumes "token_at t i"
  shows "\<exists>k\<le>i. token_at t k \<and> (\<forall>j<k. \<not> token_at t j)"
proof -
  define k where "k = (LEAST n. token_at t n)"
  have "token_at t k" unfolding k_def using assms by (rule LeastI)
  moreover have "k \<le> i" unfolding k_def using assms by (rule Least_le)
  moreover have "\<forall>j<k. \<not> token_at t j"
    unfolding k_def using not_less_Least by blast
  ultimately show ?thesis by blast
qed

lemma token_at_has_Q: "token_at t i \<Longrightarrow> CHR ''Q'' \<in> set t"
proof -
  assume "token_at t i"
  then have "take 6 (drop i t) = ''Query ''" by (simp add: token_at_def)
  then have "CHR ''Q'' \<in> set (take 6 (drop i t))" by simp
  then show ?thesis by (meson in_set_takeD in_set_dropD)
qed

lemma token_at_append:
  "token_at (pre @ ''Query '' @ r) (length pre) \<longleftrightarrow> r \<noteq> [] \<and> is_digit (hd r)"
  by (cases r) (auto simp add: token_at_def nth_append)

lemma digit_run_append:
  "digit_run (pre @ ''Query '' @ r) (length pre) = takeWhile is_digit r"
  by (simp add: digit_run_def)

text \<open>A label followed by anything but a digit is read back as its number.\<close>

lemma extract_query_number_label:
  assumes "r = [] \<or> \<not> is_digit (hd r)"
  shows "extract_query_number (''Query '' @ str_nat n @ r) = Some (int n)"
proof -
  have run: "takeWhile is_digit (str_nat n @ r) = str_nat n"
  proof -
    have "takeWhile is_digit (str_nat n @ r) = str_nat n @ takeWhile is_digit r"
      using str_nat_digits [of n] by simp
    moreover have "takeWhile is_digit r = []"
      using assms by (cases r) auto
    ultimately show ?thesis by simp
  qed
  have "match_here (''Query '' @ str_nat n @ r) = Some (str_nat n)"
    using run str_nat_nonempty [of n] by (simp add: match_here_def)
  then have "re_search (''Query '' @ str_nat n @ r) = Some (str_nat n)"
    by simp
  then show ?thesis
    by (simp add: extract_query_number_def py_int_str_nat)
qed

lemma extract_other_whitespace:
  assumes ws: "ws \<noteq> []" "ws \<noteq> '' ''" "\<forall>c\<in>set ws. is_space c"
    and ds: "\<forall>c\<in>set ds. is_digit c"
  shows "extract_query_number (''Query'' @ ws @ ds) = None"
proof -
  obtain w ws' where w: "ws = w # ws'" using ws(1) by (cases ws) auto
  have here: "match_here (''Query'' @ ws @ ds) = None"
  proof (cases "w = CHR '' ''")
    case True
    with w ws(2) obtain v ws'' where v: "ws' = v # ws''" by (cases ws') auto
    then have "is_space v" using ws(3) w by simp
    then have "\<not> is_digit v" using is_digit_not_space by blast
    with v w show ?thesis by (simp add: match_here_def)
  next
    case False
    with w show ?thesis by (simp add: match_here_def)
  qed
  have nq: "\<forall>c\<in>set (''uery'' @ ws @ ds). c \<noteq> CHR ''Q''"
  proof
    fix c assume "c \<in> set (''uery'' @ ws @ ds)"
    then consider "c \<in> set ''uery''" | "is_space c" | "is_digit c"
      using ws(3) ds by auto
    then show "c \<noteq> CHR ''Q''"
      by cases (auto simp add: is_space_def is_digit_def)
  qed
  have "re_search (''uery'' @ ws @ ds) = None" using nq by (rule re_search_no_Q)
  with here have "re_search (''Query'' @ ws @ ds) = None" by simp
  then show ?thesis by (simp add: extract_query_number_def)
qed

subsection \<open>The loop of the prompt\<close>

lemma prompt_loop_lines:
  "prompt_loop i examples content =
     content @ concat (map (\<lambda>k. ''Query '' @ str_nat (i + k + 1) @ '': ''
                                  @ query (examples ! k) @ ''\<newline>'')
                          [0..<length examples])"
proof (induction examples arbitrary: i content)
  case Nil
  then show ?case by simp
next
  case (Cons example rest)
  have upt: "[0..<length (example # rest)] = 0 # map Suc [0..<length rest]"
    by (simp add: upt_conv_Cons map_Suc_upt del: upt_Suc)
  show ?case
    unfolding upt using Cons.IH [of "Suc i"] by (simp add: comp_def)
qed

subsection \<open>Stripping\<close>

lemma rev_dropWhile_takeWhile:
  "rev (dropWhile P (rev xs)) @ rev (takeWhile P (rev xs)) = xs"
proof -
  have "rev (dropWhile P (rev xs)) @ rev (takeWhile P (rev xs))
        = rev (takeWhile P (rev xs) @ dropWhile P (rev xs))"
    by (simp only: rev_append)
  also have "\<dots> = rev (rev xs)" by (simp only: takeWhile_dropWhile_id)
  also have "\<dots> = xs" by simp
  finally show ?thesis .
qed

lemma strip_decompose:
  "\<exists>l r. s = l @ strip s @ r \<and> (\<forall>c\<in>set l. is_space c) \<and> (\<forall>c\<in>set r. is_space c)"
proof -
  define l where "l = takeWhile is_space s"
  define m where "m = dropWhile is_space s"
  define r where "r = rev (takeWhile is_space (rev m))"
  have s: "s = l @ m" by (simp add: l_def m_def)
  have m: "m = strip s @ r"
    unfolding strip_def r_def m_def by (simp only: rev_dropWhile_takeWhile)
  have "\<forall>c\<in>set l. is_space c" unfolding l_def by (auto dest: set_takeWhileD)
  moreover have "\<forall>c\<in>set r. is_space c" unfolding r_def by (auto dest: set_takeWhileD)
  ultimately show ?thesis using s m by auto
qed

lemma strip_ends:
  assumes "strip s \<noteq> []"
  shows "\<not> is_space (hd (strip s)) \<and> \<not> is_space (last (strip s))"
proof -
  define m where "m = dropWhile is_space s"
  define u where "u = dropWhile is_space (rev m)"
  have su: "strip s = rev u" by (simp add: strip_def m_def u_def)
  then have une: "u \<noteq> []" using assms by simp
  then have "\<not> is_space (hd u)" unfolding u_def by (rule hd_dropWhile)
  then have last: "\<not> is_space (last (strip s))" using su une by (simp add: last_rev)
  have mne: "m \<noteq> []" using une by (auto simp add: u_def)
  then have hm: "\<not> is_space (hd m)" unfolding m_def by (rule hd_dropWhile)
  have "m = strip s @ rev (takeWhile is_space (rev m))"
    unfolding su u_def by (simp only: rev_dropWhile_takeWhile)
  moreover have "hd (strip s @ rev (takeWhile is_space (rev m))) = hd (strip s)"
    using assms by (rule hd_append2)
  ultimately have "hd m = hd (strip s)" by metis
  with hm last show ?thesis by simp
qed

section \<open>Claims\<close>

subsection \<open>The selection extractor\<close>

text \<open>
  C1, as the code has it. For every response text, \<^verbatim>\<open>extract_query_number\<close> returns
  the base-10 integer read from the digit run of the first occurrence of the token
  \<^verbatim>\<open>Query\<close>, one space and one or more decimal digits, and returns \<^verbatim>\<open>None\<close>
  exactly when the text has no such occurrence. In particular, when that first
  occurrence is \<^verbatim>\<open>Query 3\<close> with no further digit after the 3, and \<^verbatim>\<open>Query 7\<close>
  comes later, the result is 3 and not 7.
\<close>

theorem extract_query_number_first_match:
  "(extract_query_number t = None \<longleftrightarrow> (\<forall>i. \<not> token_at t i))
   \<and> (\<forall>i. token_at t i \<and> (\<forall>j<i. \<not> token_at t j)
          \<longrightarrow> extract_query_number t = Some (py_int (digit_run t i)))
   \<and> (\<forall>pre mid post.
          t = pre @ ''Query 3'' @ mid @ ''Query 7'' @ post
          \<and> (\<forall>j<length pre. \<not> token_at t j)
          \<and> (mid = [] \<or> \<not> is_digit (hd mid))
          \<longrightarrow> extract_query_number t = Some 3)"
proof (intro conjI allI impI)
  show "extract_query_number t = None \<longleftrightarrow> (\<forall>i. \<not> token_at t i)"
    by (rule extract_query_number_None_iff)
next
  fix i assume "token_at t i \<and> (\<forall>j<i. \<not> token_at t j)"
  then show "extract_query_number t = Some (py_int (digit_run t i))"
    by (intro extract_query_number_at_first) auto
next
  fix pre mid post
  assume a: "t = pre @ ''Query 3'' @ mid @ ''Query 7'' @ post
             \<and> (\<forall>j<length pre. \<not> token_at t j)
             \<and> (mid = [] \<or> \<not> is_digit (hd mid))"
  define r where "r = ''3'' @ mid @ ''Query 7'' @ post"
  have t: "t = pre @ ''Query '' @ r" using a by (simp add: r_def)
  have "r \<noteq> [] \<and> is_digit (hd r)" by (simp add: r_def is_digit_def)
  then have tok: "token_at t (length pre)"
    unfolding t using token_at_append [of pre r] by blast
  have "takeWhile is_digit (mid @ ''Query 7'' @ post) = []"
    using a by (cases mid) (auto simp add: is_digit_def)
  then have "takeWhile is_digit r = ''3''"
    by (simp add: r_def is_digit_def)
  then have run: "digit_run t (length pre) = ''3''"
    unfolding t using digit_run_append [of pre r] by metis
  have "extract_query_number t = Some (py_int (digit_run t (length pre)))"
    using tok a by (intro extract_query_number_at_first) auto
  then show "extract_query_number t = Some 3"
    by (simp add: run py_int_def digit_value_def)
qed

text \<open>
  The theorem at the answer \<^verbatim>\<open>Query 3 is not it, but Query 7 is\<close>, and at an answer
  that names no query.
\<close>

theorem extract_query_number_first_match_witness:
  "token_at ''Query 3 is not it, but Query 7 is'' 0
   \<and> extract_query_number ''Query 3 is not it, but Query 7 is'' = Some 3
   \<and> extract_query_number ''None of them fits.'' = None"
proof -
  let ?t = "''Query 3 is not it, but Query 7 is''"
  let ?mid = "'' is not it, but ''"
  have tok: "token_at ?t 0" by (simp add: token_at_def is_digit_def)
  have shape: "?t = [] @ ''Query 3'' @ ?mid @ ''Query 7'' @ '' is''" by simp
  have first: "\<forall>j<length ([]::string). \<not> token_at ?t j" by simp
  have after: "?mid = [] \<or> \<not> is_digit (hd ?mid)" by (simp add: is_digit_def)
  from extract_query_number_first_match [of ?t] have
    "\<forall>pre mid post.
        ?t = pre @ ''Query 3'' @ mid @ ''Query 7'' @ post
        \<and> (\<forall>j<length pre. \<not> token_at ?t j)
        \<and> (mid = [] \<or> \<not> is_digit (hd mid))
        \<longrightarrow> extract_query_number ?t = Some 3"
    by blast
  then have three: "extract_query_number ?t = Some 3"
    using shape first after by blast
  have "CHR ''Q'' \<notin> set ''None of them fits.''" by simp
  then have "\<forall>i. \<not> token_at ''None of them fits.'' i"
    using token_at_has_Q by blast
  then have none: "extract_query_number ''None of them fits.'' = None"
    using extract_query_number_first_match [of "''None of them fits.''"] by blast
  from tok three none show ?thesis by blast
qed

text \<open>
  C1 as stated fails: a text can contain \<^verbatim>\<open>Query 3\<close> before \<^verbatim>\<open>Query 7\<close> and
  still give another number, here 1, since an earlier token is the first match.
\<close>

theorem extract_query_number_first_match_counterexample:
  "extract_query_number ''Query 1 is close, Query 3 is closer, Query 7 is not'' = Some 1"
  by (simp add: extract_query_number_def match_here_def is_digit_def py_int_def
      digit_value_def)

text \<open>
  C4, as the code has it. The pattern has one literal space. For every response text in
  which \<^verbatim>\<open>Query\<close> is followed by exactly one space and then one or more decimal
  digits, the extractor returns the digit run of the first such occurrence read as a
  base-10 integer. Any other whitespace between \<^verbatim>\<open>Query\<close> and the digits (a tab, a
  line break, two or more spaces) is not matched: a text made of \<^verbatim>\<open>Query\<close>, such
  whitespace and digits gives \<^verbatim>\<open>None\<close>.
\<close>

theorem extract_query_number_one_space:
  "(\<forall>i. token_at t i \<longrightarrow>
        (\<exists>k\<le>i. token_at t k \<and> (\<forall>j<k. \<not> token_at t j)
               \<and> extract_query_number t = Some (py_int (digit_run t k))))
   \<and> (\<forall>ws ds. ws \<noteq> [] \<and> ws \<noteq> '' '' \<and> (\<forall>c\<in>set ws. is_space c)
               \<and> (\<forall>c\<in>set ds. is_digit c)
          \<longrightarrow> extract_query_number (''Query'' @ ws @ ds) = None)"
proof (intro conjI allI impI)
  fix i assume "token_at t i"
  then obtain k where k: "k \<le> i" "token_at t k" "\<forall>j<k. \<not> token_at t j"
    using first_token_exists by blast
  then have "extract_query_number t = Some (py_int (digit_run t k))"
    by (intro extract_query_number_at_first) auto
  with k show "\<exists>k\<le>i. token_at t k \<and> (\<forall>j<k. \<not> token_at t j)
                 \<and> extract_query_number t = Some (py_int (digit_run t k))"
    by blast
next
  fix ws ds
  assume "ws \<noteq> [] \<and> ws \<noteq> '' '' \<and> (\<forall>c\<in>set ws. is_space c) \<and> (\<forall>c\<in>set ds. is_digit c)"
  then show "extract_query_number (''Query'' @ ws @ ds) = None"
    by (intro extract_other_whitespace) auto
qed

text \<open>
  The theorem at \<^verbatim>\<open>Query 7\<close> inside a sentence, and at \<^verbatim>\<open>Query\<close>, a line break
  and 7.
\<close>

theorem extract_query_number_one_space_witness:
  "token_at ''I pick Query 7.'' 7
   \<and> extract_query_number ''I pick Query 7.'' = Some 7
   \<and> extract_query_number (''Query'' @ ''\<newline>'' @ ''7'') = None"
proof -
  let ?t = "''I pick Query 7.''"
  have tok: "token_at ?t 7" by (simp add: token_at_def is_digit_def)
  from extract_query_number_one_space [of ?t] tok obtain k where
    k: "k \<le> 7" "token_at ?t k" "extract_query_number ?t = Some (py_int (digit_run ?t k))"
    by blast
  have "\<forall>j<7. \<not> token_at ?t j"
    by (simp add: token_at_def All_less_Suc eval_nat_numeral)
  with k have "k = 7" by (metis le_neq_implies_less)
  moreover have "py_int (digit_run ?t 7) = 7"
    by (simp add: digit_run_def is_digit_def py_int_def digit_value_def)
  ultimately have seven: "extract_query_number ?t = Some 7" using k by simp
  have "''\<newline>'' \<noteq> [] \<and> ''\<newline>'' \<noteq> '' '' \<and> (\<forall>c\<in>set ''\<newline>''. is_space c)
        \<and> (\<forall>c\<in>set ''7''. is_digit c)"
    by (simp add: is_space_def is_digit_def)
  then have brk: "extract_query_number (''Query'' @ ''\<newline>'' @ ''7'') = None"
    using extract_query_number_one_space [of "[]"] by blast
  from tok seven brk show ?thesis by blast
qed

text \<open>
  C4 as stated fails: with a tab, or with two spaces, between \<^verbatim>\<open>Query\<close> and 7
  the extractor returns \<^verbatim>\<open>None\<close>, not 7.
\<close>

theorem extract_query_number_one_space_counterexample:
  "extract_query_number (''Query'' @ [CHR 0x09] @ ''7'') = None
   \<and> extract_query_number ''Query  7'' = None"
  by (simp add: extract_query_number_def match_here_def is_digit_def)

text \<open>
  C10. The extractor checks no range. It returns 0 on \<^verbatim>\<open>Query 0\<close>; every
  non-negative integer is returned on some text; so for every window there is a text on
  which the returned number exceeds the size of the window.
\<close>

theorem extract_query_number_unbounded:
  "extract_query_number ''Query 0'' = Some 0
   \<and> (\<forall>n::nat. extract_query_number (''Query '' @ str_nat n) = Some (int n))
   \<and> (\<forall>window::sample list. \<exists>t v. extract_query_number t = Some v \<and> int (length window) < v)"
proof (intro conjI allI)
  show "extract_query_number ''Query 0'' = Some 0"
    by (simp add: extract_query_number_def match_here_def is_digit_def py_int_def
        digit_value_def)
next
  fix n :: nat
  show "extract_query_number (''Query '' @ str_nat n) = Some (int n)"
    using extract_query_number_label [of "[]" n] by simp
next
  fix window :: "sample list"
  have "extract_query_number (''Query '' @ str_nat (Suc (length window)))
        = Some (int (Suc (length window)))"
    using extract_query_number_label [of "[]" "Suc (length window)"] by simp
  moreover have "int (length window) < int (Suc (length window))" by simp
  ultimately show "\<exists>t v. extract_query_number t = Some v \<and> int (length window) < v"
    by blast
qed

text \<open>The theorem at a window of two candidates: some text gives a number above 2.\<close>

theorem extract_query_number_unbounded_witness:
  "extract_query_number ''Query 0'' = Some 0
   \<and> extract_query_number (''Query '' @ str_nat 91) = Some 91
   \<and> (\<exists>t v. extract_query_number t = Some v
            \<and> int (length [\<lparr>query = ''a'', answer = ''x''\<rparr>, \<lparr>query = ''b'', answer = ''y''\<rparr>]) < v)"
  using extract_query_number_unbounded [of]
  by (metis of_nat_numeral)

subsection \<open>The position resolver\<close>

text \<open>
  C2, as the code has it. The cell validates nothing; the only failure is the one the
  indexing \<^verbatim>\<open>subset[query_number - 1]\<close> raises. For every window of size K (K at
  least 1 included) and every dataset: a selection index from 1 to K succeeds and picks
  the candidate at offset index - 1; an index above K, K + 1 in particular, fails with
  the out-of-range error \<^verbatim>\<open>IndexError\<close>; an index from 1 - K to 0 does not fail,
  since a negative key counts from the end of the window, so that index 0 picks the last
  candidate; an index below 1 - K fails with \<^verbatim>\<open>IndexError\<close>.
\<close>

theorem resolve_match_bounds:
  fixes j :: int and subset_rows :: "sample list"
  defines "K \<equiv> int (length subset_rows)"
  shows "(1 \<le> j \<and> j \<le> K \<longrightarrow>
            (\<exists>pos. resolve_match data subset_rows (Some j)
                     = Inr (Some (query (subset_rows ! nat (j - 1)), pos))))
       \<and> (K < j \<longrightarrow> resolve_match data subset_rows (Some j) = Inl IndexError)
       \<and> (1 - K \<le> j \<and> j \<le> 0 \<longrightarrow>
            (\<exists>pos. resolve_match data subset_rows (Some j)
                     = Inr (Some (query (subset_rows ! nat (K + j - 1)), pos))))
       \<and> (j < 1 - K \<longrightarrow> resolve_match data subset_rows (Some j) = Inl IndexError)"
proof (intro conjI impI)
  assume "1 \<le> j \<and> j \<le> K"
  then have "getitem subset_rows (j - 1) = Inr (subset_rows ! nat (j - 1))"
    unfolding K_def by (intro getitem_forward) auto
  then show "\<exists>pos. resolve_match data subset_rows (Some j)
                = Inr (Some (query (subset_rows ! nat (j - 1)), pos))"
    by (rule resolve_match_row)
next
  assume "K < j"
  then have "getitem subset_rows (j - 1) = Inl IndexError"
    unfolding K_def by (intro getitem_raises) auto
  then show "resolve_match data subset_rows (Some j) = Inl IndexError"
    by (rule resolve_match_raises)
next
  assume "1 - K \<le> j \<and> j \<le> 0"
  then have "getitem subset_rows (j - 1)
             = Inr (subset_rows ! nat (j - 1 + int (length subset_rows)))"
    unfolding K_def by (intro getitem_backward) auto
  moreover have "j - 1 + int (length subset_rows) = K + j - 1"
    by (simp add: K_def)
  ultimately have "getitem subset_rows (j - 1) = Inr (subset_rows ! nat (K + j - 1))"
    by simp
  then show "\<exists>pos. resolve_match data subset_rows (Some j)
                = Inr (Some (query (subset_rows ! nat (K + j - 1)), pos))"
    by (rule resolve_match_row)
next
  assume "j < 1 - K"
  then have "getitem subset_rows (j - 1) = Inl IndexError"
    unfolding K_def by (intro getitem_raises) auto
  then show "resolve_match data subset_rows (Some j) = Inl IndexError"
    by (rule resolve_match_raises)
qed

text \<open>
  The theorem at the window c, d, e of the dataset a, b, c, d, e, for the indices 2, 4,
  0 and -3.
\<close>

theorem resolve_match_bounds_witness:
  "(\<exists>pos. resolve_match
             [\<lparr>query = ''a'', answer = ''A''\<rparr>, \<lparr>query = ''b'', answer = ''B''\<rparr>,
              \<lparr>query = ''c'', answer = ''C''\<rparr>, \<lparr>query = ''d'', answer = ''D''\<rparr>,
              \<lparr>query = ''e'', answer = ''E''\<rparr>]
             [\<lparr>query = ''c'', answer = ''C''\<rparr>, \<lparr>query = ''d'', answer = ''D''\<rparr>,
              \<lparr>query = ''e'', answer = ''E''\<rparr>]
             (Some 2) = Inr (Some (''d'', pos)))
   \<and> resolve_match
             [\<lparr>query = ''a'', answer = ''A''\<rparr>, \<lparr>query = ''b'', answer = ''B''\<rparr>,
              \<lparr>query = ''c'', answer = ''C''\<rparr>, \<lparr>query = ''d'', answer = ''D''\<rparr>,
              \<lparr>query = ''e'', answer = ''E''\<rparr>]
             [\<lparr>query = ''c'', answer = ''C''\<rparr>, \<lparr>query = ''d'', answer = ''D''\<rparr>,
              \<lparr>query = ''e'', answer = ''E''\<rparr>]
             (Some 4) = Inl IndexError
   \<and> (\<exists>pos. resolve_match
             [\<lparr>query = ''a'', answer = ''A''\<rparr>, \<lparr>query = ''b'', answer = ''B''\<rparr>,
              \<lparr>query = ''c'', answer = ''C''\<rparr>, \<lparr>query = ''d'', answer = ''D''\<rparr>,
              \<lparr>query = ''e'', answer = ''E''\<rparr>]
             [\<lparr>query = ''c'', answer = ''C''\<rparr>, \<lparr>query = ''d'', answer = ''D''\<rparr>,
              \<lparr>query = ''e'', answer = ''E''\<rparr>]
             (Some 0) = Inr (Some (''e'', pos)))
   \<and> resolve_match
             [\<lparr>query = ''a'', answer = ''A''\<rparr>, \<lparr>query = ''b'', answer = ''B''\<rparr>,
              \<lparr>query = ''c'', answer = ''C''\<rparr>, \<lparr>query = ''d'', answer = ''D''\<rparr>,
              \<lparr>query = ''e'', answer = ''E''\<rparr>]
             [\<lparr>query = ''c'', answer = ''C''\<rparr>, \<lparr>query = ''d'', answer = ''D''\<rparr>,
              \<lparr>query = ''e'', answer = ''E''\<rparr>]
             (Some (- 3)) = Inl IndexError"
proof -
  let ?D = "[\<lparr>query = ''a'', answer = ''A''\<rparr>, \<lparr>query = ''b'', answer = ''B''\<rparr>,
             \<lparr>query = ''c'', answer = ''C''\<rparr>, \<lparr>query = ''d'', answer = ''D''\<rparr>,
             \<lparr>query = ''e'', answer = ''E''\<rparr>]"
  let ?W = "[\<lparr>query = ''c'', answer = ''C''\<rparr>, \<lparr>query = ''d'', answer = ''D''\<rparr>,
             \<lparr>query = ''e'', answer = ''E''\<rparr>]"
  have a: "\<exists>pos. resolve_match ?D ?W (Some 2) = Inr (Some (''d'', pos))"
    using resolve_match_bounds [of 2 ?W ?D] by simp
  have b: "resolve_match ?D ?W (Some 4) = Inl IndexError"
    using resolve_match_bounds [of 4 ?W ?D] by simp
  have c: "\<exists>pos. resolve_match ?D ?W (Some 0) = Inr (Some (''e'', pos))"
    using resolve_match_bounds [of 0 ?W ?D] by simp
  have d: "resolve_match ?D ?W (Some (- 3)) = Inl IndexError"
    using resolve_match_bounds [of "- 3" ?W ?D] by simp
  from a b c d show ?thesis by blast
qed

text \<open>
  C2 as stated fails at selection index 0: no error is raised, the last candidate of the
  window is taken and looked up.
\<close>

theorem resolve_match_bounds_counterexample:
  "resolve_match
     [\<lparr>query = ''a'', answer = ''A''\<rparr>, \<lparr>query = ''b'', answer = ''B''\<rparr>,
      \<lparr>query = ''c'', answer = ''C''\<rparr>, \<lparr>query = ''d'', answer = ''D''\<rparr>,
      \<lparr>query = ''e'', answer = ''E''\<rparr>]
     [\<lparr>query = ''c'', answer = ''C''\<rparr>, \<lparr>query = ''d'', answer = ''D''\<rparr>,
      \<lparr>query = ''e'', answer = ''E''\<rparr>]
     (Some 0) = Inr (Some (''e'', Some 4))"
  by (simp add: resolve_match_def getitem_def find_paragraph_index_def list_index_def)

text \<open>
  C5. Round trip: for every full collection, every window that is its contiguous
  sub-range from s (included) to e (excluded) with s < e within the collection, and
  every in-window selection index j from 1 to e - s, if the text of the candidate at
  offset j - 1 has no duplicate elsewhere in the collection (it stands at no index other
  than s + (j - 1), so in particular nowhere outside the window), then resolving j
  returns that text with the absolute index s + (j - 1).
\<close>

theorem resolve_match_round_trip:
  fixes j :: int
  assumes bounds: "s < e" "e \<le> length data"
    and slice: "subset_rows = take (e - s) (drop s data)"
    and sel: "1 \<le> j" "j \<le> int (e - s)"
    and chosen: "x = query (subset_rows ! nat (j - 1))"
    and unique: "\<forall>i < length data. query (data ! i) = x \<longrightarrow> i = s + nat (j - 1)"
  shows "resolve_match data subset_rows (Some j) = Inr (Some (x, Some (s + nat (j - 1))))"
proof -
  have off: "nat (j - 1) < e - s" using sel by simp
  have outside: "\<forall>i < length data. query (data ! i) = x \<longrightarrow> s \<le> i \<and> i < e"
  proof (intro allI impI)
    fix i assume "i < length data" and "query (data ! i) = x"
    with unique have "i = s + nat (j - 1)" by blast
    with off show "s \<le> i \<and> i < e" by simp
  qed
  have earlier: "\<forall>k < nat (j - 1). query (subset_rows ! k) \<noteq> x"
  proof (intro allI impI)
    fix k assume k: "k < nat (j - 1)"
    then have ke: "k < e - s" using off by simp
    then have row: "subset_rows ! k = data ! (s + k)" using bounds slice by simp
    have "s + k < length data" using ke bounds by simp
    moreover have "s + k \<noteq> s + nat (j - 1)" using k by simp
    ultimately have "query (data ! (s + k)) \<noteq> x" using unique by blast
    with row show "query (subset_rows ! k) \<noteq> x" by simp
  qed
  from bounds slice sel chosen outside earlier show ?thesis
    by (rule resolve_match_in_window)
qed

text \<open>
  The theorem at the collection a, b, c, d, e, the window from 2 to 5 and the
  selection 2: the candidate d, at absolute index 3.
\<close>

theorem resolve_match_round_trip_witness:
  "resolve_match
     [\<lparr>query = ''a'', answer = ''A''\<rparr>, \<lparr>query = ''b'', answer = ''B''\<rparr>,
      \<lparr>query = ''c'', answer = ''C''\<rparr>, \<lparr>query = ''d'', answer = ''D''\<rparr>,
      \<lparr>query = ''e'', answer = ''E''\<rparr>]
     (take (5 - 2) (drop 2
        [\<lparr>query = ''a'', answer = ''A''\<rparr>, \<lparr>query = ''b'', answer = ''B''\<rparr>,
         \<lparr>query = ''c'', answer = ''C''\<rparr>, \<lparr>query = ''d'', answer = ''D''\<rparr>,
         \<lparr>query = ''e'', answer = ''E''\<rparr>]))
     (Some 2) = Inr (Some (''d'', Some 3))"
proof -
  let ?D = "[\<lparr>query = ''a'', answer = ''A''\<rparr>, \<lparr>query = ''b'', answer = ''B''\<rparr>,
             \<lparr>query = ''c'', answer = ''C''\<rparr>, \<lparr>query = ''d'', answer = ''D''\<rparr>,
             \<lparr>query = ''e'', answer = ''E''\<rparr>]"
  let ?W = "take (5 - 2) (drop 2 ?D)"
  have h1: "(2::nat) < 5" by simp
  have h2: "(5::nat) \<le> length ?D" by simp
  have h3: "?W = take (5 - 2) (drop 2 ?D)" by simp
  have h4: "(1::int) \<le> 2" by simp
  have h5: "(2::int) \<le> int (5 - 2)" by simp
  have h6: "''d'' = query (?W ! nat (2 - 1))" by simp
  have h7: "\<forall>i < length ?D. query (?D ! i) = ''d'' \<longrightarrow> i = 2 + nat (2 - 1)"
    by (simp add: All_less_Suc eval_nat_numeral)
  from resolve_match_round_trip [OF h1 h2 h3 h4 h5 h6 h7]
  show ?thesis by simp
qed

text \<open>
  C6. For every full collection and every candidate text that occurs in it,
  \<^verbatim>\<open>find_paragraph_index\<close> returns the smallest index at which the collection holds that
  text: the first occurrence by value, whatever later duplicates there are.
\<close>

theorem find_paragraph_index_first:
  assumes "candidate_text \<in> set full_collection"
  shows "\<exists>i. find_paragraph_index full_collection candidate_text = Inr (Some i)
           \<and> i < length full_collection
           \<and> full_collection ! i = candidate_text
           \<and> (\<forall>j<i. full_collection ! j \<noteq> candidate_text)"
proof -
  from first_occurrence_exists [OF assms] obtain i where
    i: "i < length full_collection" "full_collection ! i = candidate_text"
       "\<forall>j<i. full_collection ! j \<noteq> candidate_text"
    by blast
  then have "find_paragraph_index full_collection candidate_text = Inr (Some i)"
    by (intro find_paragraph_index_at) auto
  with i show ?thesis by blast
qed

text \<open>The theorem at a collection that holds the text at the indices 1 and 3.\<close>

theorem find_paragraph_index_first_witness:
  "''b'' \<in> set [''a'', ''b'', ''c'', ''b'']
   \<and> (\<exists>i. find_paragraph_index [''a'', ''b'', ''c'', ''b''] ''b'' = Inr (Some i)
          \<and> i < length [''a'', ''b'', ''c'', ''b'']
          \<and> [''a'', ''b'', ''c'', ''b''] ! i = ''b''
          \<and> (\<forall>j<i. [''a'', ''b'', ''c'', ''b''] ! j \<noteq> ''b''))
   \<and> find_paragraph_index [''a'', ''b'', ''c'', ''b''] ''b'' = Inr (Some 1)"
proof -
  have h: "''b'' \<in> set [''a'', ''b'', ''c'', ''b'']" by simp
  have v: "find_paragraph_index [''a'', ''b'', ''c'', ''b''] ''b'' = Inr (Some 1)"
    by (simp add: find_paragraph_index_def list_index_def)
  from h find_paragraph_index_first [OF h] v show ?thesis by blast
qed

text \<open>
  C7. For every full collection and every candidate text that does not occur in it,
  \<^verbatim>\<open>find_paragraph_index\<close> returns \<^verbatim>\<open>None\<close>, a normal return and not an exception.
\<close>

theorem find_paragraph_index_absent:
  assumes "candidate_text \<notin> set full_collection"
  shows "find_paragraph_index full_collection candidate_text = Inr None"
  using list_index_from_absent [OF assms, of 0]
  by (simp add: find_paragraph_index_def list_index_def)

text \<open>The theorem at a collection of three texts and a fourth text.\<close>

theorem find_paragraph_index_absent_witness:
  "''z'' \<notin> set [''a'', ''b'', ''c'']
   \<and> find_paragraph_index [''a'', ''b'', ''c''] ''z'' = Inr None"
proof -
  have h: "''z'' \<notin> set [''a'', ''b'', ''c'']" by simp
  show ?thesis using h find_paragraph_index_absent [OF h] by simp
qed

subsection \<open>The prompt builder\<close>

text \<open>
  C3, as the code has it. \<^verbatim>\<open>build_comparison_prompt\<close> validates nothing. For every
  reference code, an empty sequence of candidates raises no error: the function returns
  the prompt made of the reference code and the instruction sentence, with no candidate
  line after it.
\<close>

theorem build_comparison_prompt_empty:
  "build_comparison_prompt code [] =
     ''The following code is provided:\<newline>\<newline>'' @ code @ ''\<newline>\<newline>''
     @ ''Please identify which query in the list below is the most similar to the code in terms of purpose. The options are:\<newline>\<newline>''"
  by (simp add: build_comparison_prompt_def)

text \<open>The theorem at a one-line reference code.\<close>

theorem build_comparison_prompt_empty_witness:
  "build_comparison_prompt ''self.play(c.animate.flip())'' [] =
     ''The following code is provided:\<newline>\<newline>self.play(c.animate.flip())\<newline>\<newline>Please identify which query in the list below is the most similar to the code in terms of purpose. The options are:\<newline>\<newline>''"
  using build_comparison_prompt_empty [of "''self.play(c.animate.flip())''"] by simp

text \<open>
  C3 as stated fails: with no candidate the builder returns a prompt, where the claim
  has it fail with an input error.
\<close>

theorem build_comparison_prompt_empty_counterexample:
  "build_comparison_prompt ''pass'' [] =
     ''The following code is provided:\<newline>\<newline>pass\<newline>\<newline>Please identify which query in the list below is the most similar to the code in terms of purpose. The options are:\<newline>\<newline>''"
  by (simp add: build_comparison_prompt_def)

text \<open>
  C8. For every reference code and every sequence of candidates (the non-empty ones
  included), the prompt is the preamble followed by one line per candidate, in the order
  given: the line of the candidate at 0-based position i is the label \<^verbatim>\<open>Query\<close>, a
  space, the decimal rendering of i + 1, a colon and a space, then the text of the
  candidate. The labels therefore run 1, 2, ..., n without a gap, and each line is read
  back by the extractor as the number i + 1.
\<close>

theorem build_comparison_prompt_labels:
  "build_comparison_prompt code candidates =
     ''The following code is provided:\<newline>\<newline>'' @ code @ ''\<newline>\<newline>''
     @ ''Please identify which query in the list below is the most similar to the code in terms of purpose. The options are:\<newline>\<newline>''
     @ concat (map (\<lambda>i. ''Query '' @ str_nat (i + 1) @ '': '' @ query (candidates ! i) @ ''\<newline>'')
                   [0..<length candidates])
   \<and> (\<forall>i<length candidates.
         extract_query_number
           (''Query '' @ str_nat (i + 1) @ '': '' @ query (candidates ! i) @ ''\<newline>'')
         = Some (int i + 1))"
proof (intro conjI allI impI)
  show "build_comparison_prompt code candidates =
     ''The following code is provided:\<newline>\<newline>'' @ code @ ''\<newline>\<newline>''
     @ ''Please identify which query in the list below is the most similar to the code in terms of purpose. The options are:\<newline>\<newline>''
     @ concat (map (\<lambda>i. ''Query '' @ str_nat (i + 1) @ '': '' @ query (candidates ! i) @ ''\<newline>'')
                   [0..<length candidates])"
    unfolding build_comparison_prompt_def prompt_loop_lines by simp
next
  fix i assume "i < length candidates"
  have "\<not> is_digit (hd ('': '' @ query (candidates ! i) @ ''\<newline>''))"
    by (simp add: is_digit_def)
  then have "extract_query_number
               (''Query '' @ str_nat (i + 1) @ ('': '' @ query (candidates ! i) @ ''\<newline>''))
             = Some (int (i + 1))"
    by (intro extract_query_number_label) simp
  then show "extract_query_number
               (''Query '' @ str_nat (i + 1) @ '': '' @ query (candidates ! i) @ ''\<newline>'')
             = Some (int i + 1)"
    by simp
qed

text \<open>The theorem at a window of two candidates.\<close>

theorem build_comparison_prompt_labels_witness:
  "build_comparison_prompt ''x''
     [\<lparr>query = ''flip a triangle'', answer = ''A''\<rparr>, \<lparr>query = ''draw a circle'', answer = ''B''\<rparr>] =
     ''The following code is provided:\<newline>\<newline>x\<newline>\<newline>Please identify which query in the list below is the most similar to the code in terms of purpose. The options are:\<newline>\<newline>Query 1: flip a triangle\<newline>Query 2: draw a circle\<newline>''
   \<and> extract_query_number ''Query 2: draw a circle\<newline>'' = Some 2"
proof -
  let ?C = "[\<lparr>query = ''flip a triangle'', answer = ''A''\<rparr>,
             \<lparr>query = ''draw a circle'', answer = ''B''\<rparr>]"
  have s1: "str_nat 1 = ''1''" by code_simp
  have s2: "str_nat 2 = ''2''" by code_simp
  have s1': "str_nat (Suc 0) = ''1''" using s1 by simp
  have s2': "str_nat (Suc (Suc 0)) = ''2''" using s2 by (simp add: numeral_2_eq_2)
  note th = build_comparison_prompt_labels [of "''x''" ?C]
  have a: "build_comparison_prompt ''x'' ?C =
     ''The following code is provided:\<newline>\<newline>x\<newline>\<newline>Please identify which query in the list below is the most similar to the code in terms of purpose. The options are:\<newline>\<newline>Query 1: flip a triangle\<newline>Query 2: draw a circle\<newline>''"
    using th by (simp add: s1' s2')
  have "(1::nat) < length ?C" by simp
  with th have "extract_query_number
                  (''Query '' @ str_nat (1 + 1) @ '': '' @ query (?C ! 1) @ ''\<newline>'')
                = Some (int 1 + 1)"
    by blast
  then have b: "extract_query_number ''Query 2: draw a circle\<newline>'' = Some 2"
    by (simp add: s2')
  from a b show ?thesis by blast
qed

subsection \<open>The key loader\<close>

text \<open>
  C9. For every path and every state of the file system: when opening the path raises
  \<^verbatim>\<open>FileNotFoundError\<close>, \<^verbatim>\<open>load_api_key\<close> raises \<^verbatim>\<open>RuntimeError\<close> with a
  message that names the path; when opening or reading fails in any other way, it raises
  \<^verbatim>\<open>RuntimeError\<close> with a message that carries the rendering of the failure; on
  success it returns the content of the file with the whitespace at both ends removed.
  No exception other than \<^verbatim>\<open>RuntimeError\<close> leaves the function, and no value is
  returned when reading fails.
\<close>

theorem load_api_key_outcomes:
  "(open_read path = Inl FileNotFoundError \<longrightarrow>
      load_api_key open_read path
      = Inl (RuntimeError (''API key file '' @ [CHR 0x27] @ path @ [CHR 0x27] @ '' not found.'')))
   \<and> (\<forall>m. open_read path = Inl (OtherException m) \<longrightarrow>
      load_api_key open_read path = Inl (RuntimeError (''Error loading API key: '' @ m)))
   \<and> (\<forall>content. open_read path = Inr content \<longrightarrow>
      load_api_key open_read path = Inr (strip content)
      \<and> (\<exists>l r. content = l @ strip content @ r
                 \<and> (\<forall>c\<in>set l. is_space c) \<and> (\<forall>c\<in>set r. is_space c))
      \<and> (strip content \<noteq> [] \<longrightarrow>
            \<not> is_space (hd (strip content)) \<and> \<not> is_space (last (strip content))))
   \<and> (\<forall>e. load_api_key open_read path = Inl e \<longrightarrow> (\<exists>m. e = RuntimeError m))
   \<and> (\<forall>v. load_api_key open_read path = Inr v \<longrightarrow> (\<exists>content. open_read path = Inr content))"
proof (intro conjI allI impI)
  assume "open_read path = Inl FileNotFoundError"
  then show "load_api_key open_read path
      = Inl (RuntimeError (''API key file '' @ [CHR 0x27] @ path @ [CHR 0x27] @ '' not found.''))"
    by (simp add: load_api_key_def)
next
  fix m assume "open_read path = Inl (OtherException m)"
  then show "load_api_key open_read path = Inl (RuntimeError (''Error loading API key: '' @ m))"
    by (simp add: load_api_key_def)
next
  fix content assume "open_read path = Inr content"
  then show "load_api_key open_read path = Inr (strip content)"
    by (simp add: load_api_key_def)
next
  fix content
  show "\<exists>l r. content = l @ strip content @ r
              \<and> (\<forall>c\<in>set l. is_space c) \<and> (\<forall>c\<in>set r. is_space c)"
    by (rule strip_decompose)
next
  fix content assume "strip content \<noteq> []"
  then show "\<not> is_space (hd (strip content))" using strip_ends by blast
next
  fix content assume "strip content \<noteq> []"
  then show "\<not> is_space (last (strip content))" using strip_ends by blast
next
  fix e assume "load_api_key open_read path = Inl e"
  then show "\<exists>m. e = RuntimeError m"
    by (auto simp add: load_api_key_def split: sum.splits read_failure.splits)
next
  fix v assume "load_api_key open_read path = Inr v"
  then show "\<exists>content. open_read path = Inr content"
    by (auto simp add: load_api_key_def split: sum.splits read_failure.splits)
qed

text \<open>
  The theorem at a file system with one key file, one file that cannot be read, and
  nothing else.
\<close>

theorem load_api_key_outcomes_witness:
  "load_api_key
     (\<lambda>p. if p = ''open_ai_API.txt'' then Inr ''  sk-test-1 \<newline>''
          else if p = ''locked.txt'' then Inl (OtherException ''Permission denied'')
          else Inl FileNotFoundError)
     ''missing.txt''
   = Inl (RuntimeError (''API key file '' @ [CHR 0x27] @ ''missing.txt'' @ [CHR 0x27] @ '' not found.''))
   \<and> load_api_key
     (\<lambda>p. if p = ''open_ai_API.txt'' then Inr ''  sk-test-1 \<newline>''
          else if p = ''locked.txt'' then Inl (OtherException ''Permission denied'')
          else Inl FileNotFoundError)
     ''locked.txt''
   = Inl (RuntimeError ''Error loading API key: Permission denied'')
   \<and> load_api_key
     (\<lambda>p. if p = ''open_ai_API.txt'' then Inr ''  sk-test-1 \<newline>''
          else if p = ''locked.txt'' then Inl (OtherException ''Permission denied'')
          else Inl FileNotFoundError)
     ''open_ai_API.txt''
   = Inr ''sk-test-1''"
proof -
  let ?fs = "\<lambda>p. if p = ''open_ai_API.txt'' then Inr ''  sk-test-1 \<newline>''
          else if p = ''locked.txt'' then Inl (OtherException ''Permission denied'')
          else Inl FileNotFoundError"
  have m: "?fs ''missing.txt'' = Inl FileNotFoundError" by simp
  have l: "?fs ''locked.txt'' = Inl (OtherException ''Permission denied'')" by simp
  have k: "?fs ''open_ai_API.txt'' = Inr ''  sk-test-1 \<newline>''" by simp
  have s: "strip ''  sk-test-1 \<newline>'' = ''sk-test-1''"
    by (simp add: strip_def is_space_def)
  have a: "load_api_key ?fs ''missing.txt''
           = Inl (RuntimeError (''API key file '' @ [CHR 0x27] @ ''missing.txt'' @ [CHR 0x27] @ '' not found.''))"
    using load_api_key_outcomes [of ?fs "''missing.txt''"] m by blast
  have b: "load_api_key ?fs ''locked.txt''
           = Inl (RuntimeError (''Error loading API key: '' @ ''Permission denied''))"
    using load_api_key_outcomes [of ?fs "''locked.txt''"] l by blast
  have "load_api_key ?fs ''open_ai_API.txt'' = Inr (strip ''  sk-test-1 \<newline>'')"
    using load_api_key_outcomes [of ?fs "''open_ai_API.txt''"] k by blast
  then have c: "load_api_key ?fs ''open_ai_API.txt'' = Inr ''sk-test-1''"
    by (simp only: s)
  from a b c show ?thesis by simp
qed

end
